theory Spec2Isabelle
  imports Main
begin

section \<open>Data model of \<open>llama_toolchain/cli/api/build.py\<close>\<close>

text \<open>
  Python lists are objects: \<open>provider.pip_packages\<close> hands out a reference to the list the
  provider spec holds, and \<open>list.extend\<close> changes that list in place. The package lists
  of the provider specs therefore live in a heap, and a spec holds the address of its list.
\<close>

type_synonym addr = nat

type_synonym heap = "addr \<Rightarrow> string list"

datatype AdapterSpec = AdapterSpec (adapter_pip_packages: addr)

text \<open>
  \<open>get_dependencies\<close> tells an \<open>InlineProviderSpec\<close> (package list and optional container
  image) from every other provider spec, of which it reads the optional \<open>adapter\<close> only.
\<close>

datatype ProviderSpec =
    InlineProviderSpec (pip_packages: addr) (docker_image: "string option")
  | RemoteProviderSpec (adapter: "AdapterSpec option")

text \<open>The model class \<open>Dependencies\<close>: it holds a list of its own (a value).\<close>

record Dependencies =
  dep_pip_packages :: "string list"
  dep_docker_image :: "string option"

datatype error =
    ValueError string
  | KeyError string
  | AssertionError
  | NameError string
  | OSError string
  | ParserError string string

text \<open>
  \<open>ParserError provider api\<close> is \<open>parser.error(...)\<close>: argparse prints the usage line and the
  message about \<open>provider\<close> and \<open>api\<close>, and leaves the process with status 2. The other
  constructors are Python exceptions that nothing in the file catches.
\<close>

text \<open>Python's truth value of an \<open>Optional[str]\<close>: \<open>None\<close> and the empty string are false.\<close>

fun truthy :: "string option \<Rightarrow> bool" where
  "truthy None = False"
| "truthy (Some s) = (s \<noteq> [])"

section \<open>The dependency merger: \<open>get_dependencies\<close>\<close>

text \<open>
  A list variable of the function is either a reference to a list object on the heap, or a
  list the function has created itself (the literal \<open>[]\<close> of \<open>_deps\<close>), which nothing else
  refers to and which is therefore kept by value.
\<close>

datatype pylist = Obj addr | New "string list"

fun contents :: "heap \<Rightarrow> pylist \<Rightarrow> string list" where
  "contents h (Obj a) = h a"
| "contents h (New l) = l"

text \<open>\<open>l.extend(xs)\<close>: in place.\<close>

fun extend :: "heap \<Rightarrow> pylist \<Rightarrow> string list \<Rightarrow> heap \<times> pylist" where
  "extend h (Obj a) xs = (h(a := h a @ xs), Obj a)"
| "extend h (New l) xs = (h, New (l @ xs))"

text \<open>The inner function \<open>_deps\<close>.\<close>

fun deps :: "ProviderSpec \<Rightarrow> pylist \<times> string option" where
  "deps (InlineProviderSpec pk img) = (Obj pk, img)"
| "deps (RemoteProviderSpec (Some ad)) = (Obj (adapter_pip_packages ad), None)"
| "deps (RemoteProviderSpec None) = (New [], None)"

definition conflict_message :: string where
  "conflict_message = ''You can only have the root provider specify a docker image''"

text \<open>
  The loop over \<open>dependencies.values()\<close>. The heap is returned on both exits: what earlier
  rounds have written stays written when a later round raises.
\<close>

fun merge_loop ::
  "heap \<Rightarrow> pylist \<Rightarrow> string option \<Rightarrow> ProviderSpec list \<Rightarrow> (error + pylist) \<times> heap" where
  "merge_loop h pk img [] = (Inr pk, h)"
| "merge_loop h pk img (dep # rest) =
     (case deps dep of (dep_pk, dep_img) \<Rightarrow>
        if truthy img \<and> truthy dep_img then (Inl (ValueError conflict_message), h)
        else (case extend h pk (contents h dep_pk) of (h', pk') \<Rightarrow>
                merge_loop h' pk' img rest))"

text \<open>
  \<open>dependencies\<close> is a dict, modelled by its items in iteration order. The constructor
  \<open>Dependencies(...)\<close> copies the list it is given.
\<close>

definition get_dependencies ::
  "heap \<Rightarrow> ProviderSpec \<Rightarrow> ('k \<times> ProviderSpec) list \<Rightarrow> (error + Dependencies) \<times> heap" where
  "get_dependencies h provider dependencies =
     (case deps provider of (pk, img) \<Rightarrow>
        (case merge_loop h pk img (map snd dependencies) of
           (Inl e, h') \<Rightarrow> (Inl e, h')
         | (Inr pk', h') \<Rightarrow>
             (Inr \<lparr>dep_pip_packages = contents h' pk', dep_docker_image = img\<rparr>, h')))"

text \<open>
  What \<open>_deps\<close> yields for a spec, read in a given heap: the contents of the package list
  and the image.
\<close>

definition derived_packages :: "heap \<Rightarrow> ProviderSpec \<Rightarrow> string list" where
  "derived_packages h spec = contents h (fst (deps spec))"

definition derived_image :: "ProviderSpec \<Rightarrow> string option" where
  "derived_image spec = snd (deps spec)"

text \<open>
  Two specs share a package list when \<open>_deps\<close> yields the same list object for both. The
  fresh list \<open>[]\<close> of a spec without adapter is shared with nothing.
\<close>

fun shares_list :: "ProviderSpec \<Rightarrow> ProviderSpec \<Rightarrow> bool" where
  "shares_list p q =
     (case (fst (deps p), fst (deps q)) of
        (Obj a, Obj b) \<Rightarrow> a = b
      | _ \<Rightarrow> False)"

section \<open>Strings\<close>

text \<open>
  A string is a list of characters, a character standing for the code point of its number
  (0 to 255). \<open>str.strip()\<close> removes the characters for which \<open>str.isspace\<close> holds; among
  these code points they are: tab, line feed, vertical tab, form feed, carriage return,
  the four separators \<open>0x1C\<close> to \<open>0x1F\<close>, the space, next line (\<open>0x85\<close>) and the
  no-break space (\<open>0xA0\<close>).
\<close>

definition is_space :: "char \<Rightarrow> bool" where
  "is_space c =
     (c \<in> set [CHR 0x09, CHR 0x0A, CHR 0x0B, CHR 0x0C, CHR 0x0D,
                CHR 0x1C, CHR 0x1D, CHR 0x1E, CHR 0x1F, CHR 0x20,
                CHR 0x85, CHR 0xA0])"

definition strip :: "string \<Rightarrow> string" where
  "strip s = rev (dropWhile is_space (rev (dropWhile is_space s)))"

text \<open>
  \<open>s.split(sep)\<close> for a separator of one character: one piece more than there are
  separators, empty pieces kept. \<open>acc\<close> holds the current piece, reversed.
\<close>

fun split_acc :: "char \<Rightarrow> string \<Rightarrow> string \<Rightarrow> string list" where
  "split_acc sep acc [] = [rev acc]"
| "split_acc sep acc (c # s) =
     (if c = sep then rev acc # split_acc sep [] s else split_acc sep (c # acc) s)"

definition split_str :: "char \<Rightarrow> string \<Rightarrow> string list" where
  "split_str sep s = split_acc sep [] s"

text \<open>\<open>" ".join(xs)\<close>.\<close>

fun join :: "string list \<Rightarrow> string" where
  "join [] = []"
| "join [x] = x"
| "join (x # y # ys) = x @ '' '' @ join (y # ys)"

text \<open>
  \<open>s.replace("::", "-")\<close>: the occurrences of \<open>::\<close> are found from the left and do not
  overlap.
\<close>

fun replace_sep :: "string \<Rightarrow> string" where
  "replace_sep (a # b # s) =
     (if a = CHR '':'' \<and> b = CHR '':'' then CHR ''-'' # replace_sep s
      else a # replace_sep (b # s))"
| "replace_sep s = s"

text \<open>Whether \<open>::\<close> occurs in a string.\<close>

fun has_sep :: "string \<Rightarrow> bool" where
  "has_sep (a # b # s) = ((a = CHR '':'' \<and> b = CHR '':'') \<or> has_sep (b # s))"
| "has_sep s = False"

section \<open>Dictionaries\<close>

text \<open>
  A dict is an association list in insertion order, its keys distinct. \<open>d[k] = v\<close> keeps
  the place of a key that is there already and appends a new key.
\<close>

fun dict_set :: "('k \<times> 'v) list \<Rightarrow> 'k \<Rightarrow> 'v \<Rightarrow> ('k \<times> 'v) list" where
  "dict_set [] k v = [(k, v)]"
| "dict_set ((k', v') # kvs) k v =
     (if k' = k then (k, v) # kvs else (k', v') # dict_set kvs k v)"

section \<open>The auxiliary dependency parser: \<open>parse_dependencies\<close>\<close>

text \<open>
  The enum \<open>Api\<close> and the registry function \<open>api_providers\<close> are imported from modules outside
  this file; the parser takes the values of the enum (\<open>apis\<close>) and the result of
  \<open>api_providers()\<close> (\<open>all_providers\<close>) as parameters. A member of \<open>Api\<close> is written as its
  value.
\<close>

type_synonym registry = "string \<rightharpoonup> (string \<rightharpoonup> ProviderSpec)"

text \<open>
  The body of the loop over \<open>dependencies.split(",")\<close>. \<open>dep.split("=")\<close> is unpacked into
  two names, which raises \<open>ValueError\<close> unless there are exactly two pieces; \<open>Api(api_str)\<close>
  raises \<open>ValueError\<close> for a string that is no value of the enum; \<open>all_providers[api]\<close>
  raises \<open>KeyError\<close> for a member the registry does not list.
\<close>

fun parse_loop ::
  "string list \<Rightarrow> registry \<Rightarrow> (string \<times> ProviderSpec) list \<Rightarrow> string list
     \<Rightarrow> error + (string \<times> ProviderSpec) list" where
  "parse_loop apis all_providers ds [] = Inr ds"
| "parse_loop apis all_providers ds (piece # rest) =
     (let dep = strip piece in
      if dep = [] then parse_loop apis all_providers ds rest
      else
        (case split_str CHR ''='' dep of
           [api_str, provider] \<Rightarrow>
             if api_str \<notin> set apis then Inl (ValueError api_str)
             else
               (let provider = strip provider in
                case all_providers api_str of
                  None \<Rightarrow> Inl (KeyError api_str)
                | Some providers \<Rightarrow>
                    (case providers provider of
                       None \<Rightarrow> Inl (ParserError provider api_str)
                     | Some spec \<Rightarrow>
                         parse_loop apis all_providers (dict_set ds api_str spec) rest))
         | _ \<Rightarrow> Inl (ValueError dep)))"

definition parse_dependencies ::
  "string list \<Rightarrow> registry \<Rightarrow> string \<Rightarrow> error + (string \<times> ProviderSpec) list" where
  "parse_dependencies apis all_providers dependencies =
     parse_loop apis all_providers [] (split_str CHR '','' dependencies)"

subsection \<open>The parser as the specification words it\<close>

text \<open>
  The specification describes the parser in stages: split on commas, trim, drop the blank
  entries, resolve each pair against the registry (the first failure ends the run), and
  collect the pairs into a mapping in the order listed.
\<close>

definition entries :: "string \<Rightarrow> string list" where
  "entries s = filter (\<lambda>e. e \<noteq> []) (map strip (split_str CHR '','' s))"

definition resolve_pair ::
  "string list \<Rightarrow> registry \<Rightarrow> string \<Rightarrow> error + (string \<times> ProviderSpec)" where
  "resolve_pair apis reg e =
     (case split_str CHR ''='' e of
        [l, r] \<Rightarrow>
          if l \<in> set apis then
            (case reg l of
               None \<Rightarrow> Inl (KeyError l)
             | Some ps \<Rightarrow>
                 (case ps (strip r) of
                    None \<Rightarrow> Inl (ParserError (strip r) l)
                  | Some spec \<Rightarrow> Inr (l, spec)))
          else Inl (ValueError l)
      | _ \<Rightarrow> Inl (ValueError e))"

fun resolve_all ::
  "string list \<Rightarrow> registry \<Rightarrow> string list \<Rightarrow> error + (string \<times> ProviderSpec) list" where
  "resolve_all apis reg [] = Inr []"
| "resolve_all apis reg (e # es) =
     (case resolve_pair apis reg e of
        Inl err \<Rightarrow> Inl err
      | Inr kv \<Rightarrow>
          (case resolve_all apis reg es of
             Inl err \<Rightarrow> Inl err
           | Inr kvs \<Rightarrow> Inr (kv # kvs)))"

definition mapping_of :: "('k \<times> 'v) list \<Rightarrow> ('k \<times> 'v) list" where
  "mapping_of kvs = foldl (\<lambda>d kv. dict_set d (fst kv) (snd kv)) [] kvs"

definition parse_spec ::
  "string list \<Rightarrow> registry \<Rightarrow> string \<Rightarrow> error + (string \<times> ProviderSpec) list" where
  "parse_spec apis reg s =
     (case resolve_all apis reg (entries s) of
        Inl err \<Rightarrow> Inl err
      | Inr kvs \<Rightarrow> Inr (mapping_of kvs))"

section \<open>The build command: \<open>_run_api_build_command\<close>\<close>

datatype BuildType = container | conda_env

text \<open>
  The parsed command line. argparse admits for \<open>--type\<close> only the values of \<open>BuildType\<close>,
  so the field holds a member of it.
\<close>

record Namespace =
  arg_api :: string
  arg_provider :: string
  arg_dependencies :: "string option"
  arg_name :: "string option"
  arg_type :: BuildType

text \<open>
  What the command takes from outside this file: the values of the enum \<open>Api\<close>, the
  registry, the base directory of the builds, the token \<open>random_string()\<close> draws, the
  clock, where \<open>pkg_resources\<close> finds a script, the exit code of the build script for a
  given argument list, and whether the file system lets a directory be made and a file be
  opened for writing.
\<close>

record env =
  Api_values :: "string list"
  api_providers :: registry
  BUILDS_BASE_DIR :: string
  random_string :: string
  datetime_now :: nat
  resource_filename :: "string \<Rightarrow> string \<Rightarrow> string"
  run_with_pty :: "string list \<Rightarrow> int"
  can_makedirs :: "string \<Rightarrow> bool"
  can_open :: "string \<Rightarrow> bool"

text \<open>
  The keys of \<open>stub_config\<close> are the string \<open>api.value\<close> for the root and the members of
  \<open>Api\<close> that \<open>parse_dependencies\<close> returns for the auxiliaries; its values hold
  \<open>args.provider\<close> for the root and the provider spec itself for an auxiliary.
\<close>

datatype config_key = StrKey string | ApiKey string

datatype provider_ref = ProviderId string | ProviderObject ProviderSpec

text \<open>
  Modelled from the spec: the class \<open>PackageConfig\<close> is declared in
  \<open>llama_toolchain.distribution.datatypes\<close>, which is not among the sources. Its fields are
  the five the constructor call names, in the order the specification fixes for the
  descriptor: build timestamp, package name, image name, environment name, provider
  mapping.
\<close>

record PackageConfig =
  cfg_built_at :: nat
  cfg_package_name :: string
  cfg_docker_image :: "string option"
  cfg_conda_env :: "string option"
  cfg_providers :: "(config_key \<times> provider_ref) list"

datatype yaml =
    YNull
  | YStr string
  | YTimestamp nat
  | YProviders "(config_key \<times> provider_ref) list"

fun yaml_opt :: "string option \<Rightarrow> yaml" where
  "yaml_opt None = YNull"
| "yaml_opt (Some s) = YStr s"

text \<open>
  \<open>c.dict()\<close>: every field, in the order of declaration. \<open>yaml.dump(..., sort_keys=False)\<close>
  writes the keys in that order.
\<close>

definition config_dict :: "PackageConfig \<Rightarrow> (string \<times> yaml) list" where
  "config_dict c =
     [(''built_at'', YTimestamp (cfg_built_at c)),
      (''package_name'', YStr (cfg_package_name c)),
      (''docker_image'', yaml_opt (cfg_docker_image c)),
      (''conda_env'', yaml_opt (cfg_conda_env c)),
      (''providers'', YProviders (cfg_providers c))]"

text \<open>What the command does to the world, in order.\<close>

datatype event =
    Makedirs string
  | WriteFile string "(string \<times> yaml) list"
  | RunScript "string list"
  | Cprint string string

text \<open>
  How a run ends: what it did, the exception that ended it (\<open>None\<close> when the function
  returns), and the heap it leaves.
\<close>

record outcome =
  events :: "event list"
  raised :: "error option"
  heap_after :: heap

definition finish :: "event list \<Rightarrow> error option \<Rightarrow> heap \<Rightarrow> outcome" where
  "finish evs r h = \<lparr>events = evs, raised = r, heap_after = h\<rparr>"

text \<open>\<open>args.name or random_string()\<close> and \<open>args.dependencies or ""\<close>.\<close>

fun name_or_random :: "string option \<Rightarrow> string \<Rightarrow> string" where
  "name_or_random (Some n) r = (if n \<noteq> [] then n else r)"
| "name_or_random None r = r"

fun dependencies_or_empty :: "string option \<Rightarrow> string" where
  "dependencies_or_empty (Some d) = d"
| "dependencies_or_empty None = []"

definition package_name :: "BuildType \<Rightarrow> string \<Rightarrow> string \<Rightarrow> string" where
  "package_name ty provider name =
     replace_sep
       ((if ty = container then ''image-'' @ provider @ ''-'' @ name
         else ''env-'' @ provider @ ''-'' @ name))"

text \<open>\<open>BUILDS_BASE_DIR / args.api\<close> and \<open>build_dir / f"{package_name}.yaml"\<close>.\<close>

definition path_join :: "string \<Rightarrow> string \<Rightarrow> string" where
  "path_join d f = d @ ''/'' @ f"

definition stub_config ::
  "string \<Rightarrow> string \<Rightarrow> (string \<times> ProviderSpec) list \<Rightarrow> (config_key \<times> provider_ref) list" where
  "stub_config api provider provider_deps =
     foldl (\<lambda>d kv. dict_set d (ApiKey (fst kv)) (ProviderObject (snd kv)))
       [(StrKey api, ProviderId provider)] provider_deps"

definition default_image :: string where
  "default_image = ''python:3.10-slim''"

text \<open>\<open>dependencies.docker_image or "python:3.10-slim"\<close>.\<close>

fun image_or_default :: "string option \<Rightarrow> string" where
  "image_or_default (Some img) = (if img \<noteq> [] then img else default_image)"
| "image_or_default None = default_image"

text \<open>The argument list handed to \<open>run_with_pty\<close>, the script first.\<close>

definition script_args :: "env \<Rightarrow> BuildType \<Rightarrow> string \<Rightarrow> string \<Rightarrow> Dependencies \<Rightarrow> string list" where
  "script_args E ty api pkg dependencies =
     (if ty = container then
        [resource_filename E ''llama_toolchain'' ''distribution/build_container.sh'',
         api, pkg, image_or_default (dep_docker_image dependencies),
         join (dep_pip_packages dependencies)]
      else
        [resource_filename E ''llama_toolchain'' ''distribution/build_conda_env.sh'',
         api, pkg, join (dep_pip_packages dependencies)])"

definition make_config ::
  "env \<Rightarrow> BuildType \<Rightarrow> string \<Rightarrow> (config_key \<times> provider_ref) list \<Rightarrow> PackageConfig" where
  "make_config E ty pkg provs =
     \<lparr>cfg_built_at = datetime_now E,
      cfg_package_name = pkg,
      cfg_docker_image = (if ty = container then Some pkg else None),
      cfg_conda_env = (if ty = conda_env then Some pkg else None),
      cfg_providers = provs\<rparr>"

text \<open>
  The last part of the command, from the opening of the descriptor file on. The assertion
  on the exit code prints its message with \<open>cprint\<close> before \<open>AssertionError\<close> is raised.
  The message of the success branch is an f-string over the name \<open>target_name\<close>, which is
  bound nowhere: evaluating it raises \<open>NameError\<close> before \<open>cprint\<close> is called.
\<close>

definition write_and_build ::
  "env \<Rightarrow> Namespace \<Rightarrow> event list \<Rightarrow> heap \<Rightarrow> string \<Rightarrow> string
     \<Rightarrow> (string \<times> ProviderSpec) list \<Rightarrow> Dependencies \<Rightarrow> outcome" where
  "write_and_build E args evs h pkg build_dir provider_deps dependencies =
     (let package_file = path_join build_dir (pkg @ ''.yaml'') in
      if \<not> can_open E package_file then finish evs (Some (OSError package_file)) h
      else
        (let c = make_config E (arg_type args) pkg
                   (stub_config (arg_api args) (arg_provider args) provider_deps);
             argv = script_args E (arg_type args) (arg_api args) pkg dependencies;
             evs' = evs @ [WriteFile package_file (config_dict c), RunScript argv]
         in
           if run_with_pty E argv \<noteq> 0 then
             finish (evs' @ [Cprint (''Failed to build target '' @ pkg) ''red''])
               (Some AssertionError) h
           else finish evs' (Some (NameError ''target_name'')) h))"

definition run_api_build_command :: "env \<Rightarrow> heap \<Rightarrow> Namespace \<Rightarrow> outcome" where
  "run_api_build_command E h args =
     (if \<not> can_makedirs E (BUILDS_BASE_DIR E) then
        finish [] (Some (OSError (BUILDS_BASE_DIR E))) h
      else if arg_api args \<notin> set (Api_values E) then
        finish [Makedirs (BUILDS_BASE_DIR E)] (Some (ValueError (arg_api args))) h
      else
        (case api_providers E (arg_api args) of
           None \<Rightarrow> finish [Makedirs (BUILDS_BASE_DIR E)] (Some AssertionError) h
         | Some providers \<Rightarrow>
             (case providers (arg_provider args) of
                None \<Rightarrow>
                  finish [Makedirs (BUILDS_BASE_DIR E)]
                    (Some (ParserError (arg_provider args) (arg_api args))) h
              | Some spec \<Rightarrow>
                  (let name = name_or_random (arg_name args) (random_string E);
                       pkg = package_name (arg_type args) (arg_provider args) name;
                       build_dir = path_join (BUILDS_BASE_DIR E) (arg_api args)
                   in
                     if \<not> can_makedirs E build_dir then
                       finish [Makedirs (BUILDS_BASE_DIR E)] (Some (OSError build_dir)) h
                     else
                       (let evs = [Makedirs (BUILDS_BASE_DIR E), Makedirs build_dir] in
                        case parse_dependencies (Api_values E) (api_providers E)
                               (dependencies_or_empty (arg_dependencies args)) of
                          Inl e \<Rightarrow> finish evs (Some e) h
                        | Inr provider_deps \<Rightarrow>
                            (case get_dependencies h spec provider_deps of
                               (Inl e, h') \<Rightarrow> finish evs (Some e) h'
                             | (Inr dependencies, h') \<Rightarrow>
                                 write_and_build E args evs h' pkg build_dir
                                   provider_deps dependencies))))))"

text \<open>The package name the command derives, and whether an event runs the build script.\<close>

definition resolved_package_name :: "env \<Rightarrow> Namespace \<Rightarrow> string" where
  "resolved_package_name E args =
     package_name (arg_type args) (arg_provider args)
       (name_or_random (arg_name args) (random_string E))"

fun is_run :: "event \<Rightarrow> bool" where
  "is_run (RunScript argv) = True"
| "is_run e = False"

fun is_write :: "event \<Rightarrow> bool" where
  "is_write (WriteFile p c) = True"
| "is_write e = False"

text \<open>The path of the descriptor file: \<open>BUILDS_BASE_DIR / args.api / f"{package_name}.yaml"\<close>.\<close>

definition descriptor_path :: "env \<Rightarrow> Namespace \<Rightarrow> string" where
  "descriptor_path E args =
     path_join (path_join (BUILDS_BASE_DIR E) (arg_api args))
       (resolved_package_name E args @ ''.yaml'')"

fun is_cprint :: "event \<Rightarrow> bool" where
  "is_cprint (Cprint t c) = True"
| "is_cprint e = False"

section \<open>Concrete inputs\<close>

text \<open>A heap with two package lists, at the addresses 0 and 2.\<close>

definition example_heap :: heap where
  "example_heap = (\<lambda>_. [])(0 := [''x''], 2 := [''y''])"

text \<open>
  A registry with one provider for each of two APIs, and an environment in which the file
  system lets the command write and the build script exits with the code \<open>rc\<close>.
\<close>

definition example_registry :: registry where
  "example_registry =
     [''inference'' \<mapsto> [''foo::bar'' \<mapsto> InlineProviderSpec 0 None],
      ''safety'' \<mapsto> [''guard'' \<mapsto> InlineProviderSpec 2 None]]"

definition example_env :: "int \<Rightarrow> env" where
  "example_env rc =
     \<lparr>Api_values = [''inference'', ''safety''],
      api_providers = example_registry,
      BUILDS_BASE_DIR = ''/builds'',
      random_string = ''Ab3dE6gh'',
      datetime_now = 0,
      resource_filename = (\<lambda>pkg f. pkg @ ''/'' @ f),
      run_with_pty = (\<lambda>argv. rc),
      can_makedirs = (\<lambda>p. True),
      can_open = (\<lambda>p. True)\<rparr>"

definition example_args :: "BuildType \<Rightarrow> Namespace" where
  "example_args ty =
     \<lparr>arg_api = ''inference'',
      arg_provider = ''foo::bar'',
      arg_dependencies = Some ''safety=guard'',
      arg_name = Some ''baz'',
      arg_type = ty\<rparr>"

section \<open>Properties of the dependency merger\<close>

lemma merge_loop_error:
  "fst (merge_loop h pk img ds) = Inl e \<Longrightarrow> e = ValueError conflict_message"
  by (induction ds arbitrary: h pk) (auto split: prod.splits if_splits)

lemma merge_loop_fails_iff:
  "(\<exists>e. fst (merge_loop h pk img ds) = Inl e) \<longleftrightarrow>
   (truthy img \<and> (\<exists>d \<in> set ds. truthy (snd (deps d))))"
  by (induction ds arbitrary: h pk) (auto split: prod.splits if_splits)

lemma get_dependencies_fst:
  "fst (get_dependencies h root aux) =
     (case fst (merge_loop h (fst (deps root)) (snd (deps root)) (map snd aux)) of
        Inl e \<Rightarrow> Inl e
      | Inr pk' \<Rightarrow> Inr \<lparr>dep_pip_packages =
            contents (snd (merge_loop h (fst (deps root)) (snd (deps root)) (map snd aux))) pk',
          dep_docker_image = snd (deps root)\<rparr>)"
  by (auto simp: get_dependencies_def split: prod.splits sum.splits)

text \<open>
  C1. The merge fails exactly when the image derived from the root and the image derived
  from at least one auxiliary are both non-empty (true in Python's sense); the failure is
  the \<open>ValueError\<close> about the root provider's image; and when the merge succeeds, the image of
  the result is the image derived from the root, so \<open>None\<close> when the root derives none.
\<close>

theorem get_dependencies_conflict_iff:
  "((\<exists>e. fst (get_dependencies h root aux) = Inl e) \<longleftrightarrow>
      (truthy (derived_image root) \<and> (\<exists>x \<in> set aux. truthy (derived_image (snd x)))))
   \<and> (\<forall>e. fst (get_dependencies h root aux) = Inl e \<longrightarrow> e = ValueError conflict_message)
   \<and> (\<forall>d. fst (get_dependencies h root aux) = Inr d \<longrightarrow> dep_docker_image d = derived_image root)"
proof (intro conjI allI impI)
  let ?m = "merge_loop h (fst (deps root)) (snd (deps root)) (map snd aux)"
  have "(\<exists>e. fst (get_dependencies h root aux) = Inl e) \<longleftrightarrow> (\<exists>e. fst ?m = Inl e)"
    by (simp add: get_dependencies_fst split: sum.splits)
  also have "\<dots> \<longleftrightarrow> (truthy (snd (deps root)) \<and> (\<exists>d \<in> set (map snd aux). truthy (snd (deps d))))"
    by (rule merge_loop_fails_iff)
  finally show "(\<exists>e. fst (get_dependencies h root aux) = Inl e) \<longleftrightarrow>
      (truthy (derived_image root) \<and> (\<exists>x \<in> set aux. truthy (derived_image (snd x))))"
    by (simp add: derived_image_def)
next
  fix e assume "fst (get_dependencies h root aux) = Inl e"
  then have "fst (merge_loop h (fst (deps root)) (snd (deps root)) (map snd aux)) = Inl e"
    by (simp add: get_dependencies_fst split: sum.splits)
  then show "e = ValueError conflict_message" by (rule merge_loop_error)
next
  fix d assume "fst (get_dependencies h root aux) = Inr d"
  then show "dep_docker_image d = derived_image root"
    by (auto simp: get_dependencies_fst derived_image_def split: sum.splits)
qed

theorem get_dependencies_conflict_iff_witness:
  "fst (get_dependencies example_heap (InlineProviderSpec 0 (Some ''base''))
          [(''safety'', InlineProviderSpec 2 (Some ''other''))])
     = Inl (ValueError conflict_message)
   \<and> (\<exists>d. fst (get_dependencies example_heap (InlineProviderSpec 0 (Some ''base''))
          [(''safety'', InlineProviderSpec 2 None)]) = Inr d \<and> dep_docker_image d = Some ''base'')"
proof -
  let ?r = "InlineProviderSpec 0 (Some ''base'')"
  let ?a1 = "[(''safety'', InlineProviderSpec 2 (Some ''other''))]"
  let ?a2 = "[(''safety'', InlineProviderSpec 2 None)]"
  have c: "truthy (derived_image ?r) \<and> (\<exists>x \<in> set ?a1. truthy (derived_image (snd x)))"
    by (simp add: derived_image_def)
  from get_dependencies_conflict_iff [of example_heap ?r ?a1] c
  obtain e where e: "fst (get_dependencies example_heap ?r ?a1) = Inl e" by blast
  with get_dependencies_conflict_iff [of example_heap ?r ?a1]
  have "e = ValueError conflict_message" by blast
  with e have 1: "fst (get_dependencies example_heap ?r ?a1) = Inl (ValueError conflict_message)"
    by simp
  have "\<not> (truthy (derived_image ?r) \<and> (\<exists>x \<in> set ?a2. truthy (derived_image (snd x))))"
    by (simp add: derived_image_def)
  with get_dependencies_conflict_iff [of example_heap ?r ?a2]
  have "\<not> (\<exists>e. fst (get_dependencies example_heap ?r ?a2) = Inl e)" by blast
  then obtain d where d: "fst (get_dependencies example_heap ?r ?a2) = Inr d"
    by (cases "fst (get_dependencies example_heap ?r ?a2)") auto
  with get_dependencies_conflict_iff [of example_heap ?r ?a2]
  have "dep_docker_image d = derived_image ?r" by blast
  then have "dep_docker_image d = Some ''base''" by (simp add: derived_image_def)
  with d 1 show ?thesis by blast
qed

text \<open>
  A root whose image is the empty string derives an image that is empty, and the merge
  hands that value on: the image of the result is the empty string, not \<open>None\<close>.
\<close>

theorem get_dependencies_empty_image_kept:
  "truthy (derived_image (InlineProviderSpec 0 (Some []))) = False
   \<and> fst (get_dependencies example_heap (InlineProviderSpec 0 (Some []))
          [(''safety'', InlineProviderSpec 2 (Some ''img-a''))])
       = Inr \<lparr>dep_pip_packages = [''x'', ''y''], dep_docker_image = Some []\<rparr>
   \<and> Some [] \<noteq> (None :: string option)"
  by (simp add: get_dependencies_def derived_image_def example_heap_def)

text \<open>
  C10. When the image derived from the root is empty (\<open>None\<close> or the empty string), the
  merge succeeds whatever the auxiliaries declare (two auxiliaries with an image each do not
  conflict), and the image of the result is the image derived from the root, unchanged:
  \<open>None\<close> exactly when the root derives \<open>None\<close>, and in no case a usable image. An image
  declared by an auxiliary is never carried into the result.
\<close>

theorem get_dependencies_no_root_image:
  "\<not> truthy (derived_image root) \<Longrightarrow>
   \<exists>d. fst (get_dependencies h root aux) = Inr d
      \<and> dep_docker_image d = derived_image root
      \<and> \<not> truthy (dep_docker_image d)
      \<and> (dep_docker_image d = None \<longleftrightarrow> derived_image root = None)"
proof -
  assume f: "\<not> truthy (derived_image root)"
  let ?m = "merge_loop h (fst (deps root)) (snd (deps root)) (map snd aux)"
  from f have "\<not> (\<exists>e. fst ?m = Inl e)"
    by (simp add: merge_loop_fails_iff derived_image_def)
  then obtain pk' where "fst ?m = Inr pk'" by (cases "fst ?m") auto
  with f show ?thesis by (simp add: get_dependencies_fst derived_image_def)
qed

theorem get_dependencies_no_root_image_witness:
  "(\<exists>d. fst (get_dependencies example_heap (RemoteProviderSpec None)
          [(''safety'', InlineProviderSpec 0 (Some ''img-a'')),
           (''memory'', InlineProviderSpec 2 (Some ''img-b''))]) = Inr d
       \<and> dep_docker_image d = None)
   \<and> (\<exists>d. fst (get_dependencies example_heap (InlineProviderSpec 0 (Some []))
          [(''safety'', InlineProviderSpec 2 (Some ''img-a''))]) = Inr d
       \<and> dep_docker_image d = Some [])"
  using get_dependencies_no_root_image [of "RemoteProviderSpec None" example_heap
          "[(''safety'', InlineProviderSpec 0 (Some ''img-a'')),
            (''memory'', InlineProviderSpec 2 (Some ''img-b''))]"]
    get_dependencies_no_root_image [of "InlineProviderSpec 0 (Some [])" example_heap
          "[(''safety'', InlineProviderSpec 2 (Some ''img-a''))]"]
  by (auto simp: derived_image_def)

lemma merge_loop_New:
  "merge_loop h (New l) img ds = (Inr pk', h') \<Longrightarrow>
   h' = h \<and> pk' = New (l @ concat (map (\<lambda>d. contents h (fst (deps d))) ds))"
proof (induction ds arbitrary: l)
  case Nil
  then show ?case by simp
next
  case (Cons d ds)
  obtain dpk dimg where d: "deps d = (dpk, dimg)" by (cases "deps d")
  from Cons.prems d have "merge_loop h (New (l @ contents h dpk)) img ds = (Inr pk', h')"
    by (auto split: if_splits)
  from Cons.IH[OF this] show ?case using d by simp
qed

lemma merge_loop_New_heap: "snd (merge_loop h (New l) img ds) = h"
  by (induction ds arbitrary: l) (auto split: prod.splits if_splits)

lemma merge_loop_Obj_frame:
  "b \<noteq> a \<Longrightarrow> snd (merge_loop h (Obj a) img ds) b = h b"
  by (induction ds arbitrary: h) (auto split: prod.splits if_splits)

lemma merge_loop_Obj_ref:
  "merge_loop h (Obj a) img ds = (Inr pk', h') \<Longrightarrow> pk' = Obj a"
  by (induction ds arbitrary: h) (auto split: prod.splits if_splits)

lemma merge_loop_Obj_unshared:
  "merge_loop h (Obj a) img ds = (Inr pk', h') \<Longrightarrow>
   \<forall>d \<in> set ds. fst (deps d) \<noteq> Obj a \<Longrightarrow>
   h' a = h a @ concat (map (\<lambda>d. contents h (fst (deps d))) ds)"
proof (induction ds arbitrary: h)
  case Nil
  then show ?case by simp
next
  case (Cons d ds)
  obtain dpk dimg where d: "deps d = (dpk, dimg)" by (cases "deps d")
  let ?h1 = "h(a := h a @ contents h dpk)"
  from Cons.prems d have run: "merge_loop ?h1 (Obj a) img ds = (Inr pk', h')"
    by (auto split: if_splits)
  have same: "contents ?h1 (fst (deps x)) = contents h (fst (deps x))" if "x \<in> set ds" for x
  proof -
    from that Cons.prems(2) have "fst (deps x) \<noteq> Obj a" by auto
    then show ?thesis by (cases "fst (deps x)") auto
  qed
  from Cons.prems have "\<forall>d \<in> set ds. fst (deps d) \<noteq> Obj a" by auto
  from Cons.IH[OF run this]
  have "h' a = ?h1 a @ concat (map (\<lambda>d. contents ?h1 (fst (deps d))) ds)" .
  moreover have "map (\<lambda>d. contents ?h1 (fst (deps d))) ds = map (\<lambda>d. contents h (fst (deps d))) ds"
    using same by (intro map_cong) auto
  ultimately show ?case using d by simp
qed

text \<open>
  Where no auxiliary shares the package list of the root, the packages of the result are
  the root's followed by each auxiliary's, in the order of the mapping, nothing removed.
\<close>

lemma get_dependencies_packages_unshared:
  assumes ok: "fst (get_dependencies h root aux) = Inr d"
    and unshared: "\<forall>x \<in> set aux. \<not> shares_list root (snd x)"
  shows "dep_pip_packages d =
           derived_packages h root @ concat (map (\<lambda>x. derived_packages h (snd x)) aux)"
proof -
  obtain r h' where m: "merge_loop h (fst (deps root)) (snd (deps root)) (map snd aux) = (r, h')"
    by (cases "merge_loop h (fst (deps root)) (snd (deps root)) (map snd aux)")
  with ok obtain pk' where r: "r = Inr pk'" and d: "dep_pip_packages d = contents h' pk'"
    by (cases r) (auto simp: get_dependencies_fst)
  have comp: "map (\<lambda>d. contents h (fst (deps d))) (map snd aux) = map (\<lambda>x. derived_packages h (snd x)) aux"
    by (simp add: derived_packages_def comp_def)
  show ?thesis
  proof (cases "fst (deps root)")
    case (Obj a)
    from unshared Obj have "\<forall>d \<in> set (map snd aux). fst (deps d) \<noteq> Obj a"
      by (auto split: pylist.splits)
    from merge_loop_Obj_unshared[OF m[unfolded Obj r] this] merge_loop_Obj_ref[OF m[unfolded Obj r]]
    show ?thesis using d Obj comp by (simp add: derived_packages_def comp_def)
  next
    case (New l)
    from merge_loop_New[OF m[unfolded New r]] show ?thesis
      using d New comp by (simp add: derived_packages_def comp_def)
  qed
qed

text \<open>
  The only list object the merge writes to is the one \<open>_deps\<close> yields for the root.
\<close>

lemma get_dependencies_frame:
  "fst (deps root) \<noteq> Obj b \<Longrightarrow> snd (get_dependencies h root aux) b = h b"
proof (cases "fst (deps root)")
  case (Obj a)
  assume "fst (deps root) \<noteq> Obj b"
  with Obj have "b \<noteq> a" by auto
  from merge_loop_Obj_frame[OF this, of h "snd (deps root)" "map snd aux"] Obj
  show ?thesis
    by (auto simp: get_dependencies_def split: prod.splits sum.splits)
next
  case (New l)
  from merge_loop_New_heap[of h l "snd (deps root)" "map snd aux"] New
  show ?thesis
    by (auto simp: get_dependencies_def split: prod.splits sum.splits)
qed

text \<open>
  C2. The package sequence of the result is claimed to be the root's derived packages
  followed by each auxiliary's. The loop extends the root's own list object, so an
  auxiliary that holds the same list object contributes the list as already extended: with
  the root's list \<open>[x]\<close>, a first auxiliary with \<open>[y]\<close> and the root's list again as second
  auxiliary, the result is \<open>[x, y, x, y]\<close>, where the derived lists give \<open>[x, y, x]\<close>.
\<close>

theorem get_dependencies_shared_root_list:
  "fst (get_dependencies example_heap (InlineProviderSpec 0 None)
          [(''safety'', InlineProviderSpec 2 None), (''memory'', InlineProviderSpec 0 None)])
     = Inr \<lparr>dep_pip_packages = [''x'', ''y'', ''x'', ''y''], dep_docker_image = None\<rparr>
   \<and> derived_packages example_heap (InlineProviderSpec 0 None)
       @ derived_packages example_heap (InlineProviderSpec 2 None)
       @ derived_packages example_heap (InlineProviderSpec 0 None) = [''x'', ''y'', ''x'']"
  by (simp add: get_dependencies_def derived_packages_def example_heap_def)

text \<open>
  C3. The merge is claimed to leave the root spec unchanged. It extends the root's package
  list in place: after merging a root with the list \<open>[x]\<close> and one auxiliary with the list
  \<open>[y]\<close>, the root's list object holds \<open>[x, y]\<close>.
\<close>

theorem get_dependencies_extends_root_list:
  "example_heap 0 = [''x'']
   \<and> snd (get_dependencies example_heap (InlineProviderSpec 0 None)
            [(''safety'', InlineProviderSpec 2 None)]) 0 = [''x'', ''y'']"
  by (simp add: get_dependencies_def example_heap_def)

section \<open>Properties of the parser\<close>

lemma parse_loop_staged:
  "parse_loop apis reg ds pieces =
     (case resolve_all apis reg (filter (\<lambda>e. e \<noteq> []) (map strip pieces)) of
        Inl err \<Rightarrow> Inl err
      | Inr kvs \<Rightarrow> Inr (foldl (\<lambda>d kv. dict_set d (fst kv) (snd kv)) ds kvs))"
proof (induction pieces arbitrary: ds)
  case Nil
  show ?case by simp
next
  case (Cons piece rest)
  show ?case
  proof (cases "strip piece = []")
    case True
    then show ?thesis using Cons.IH by simp
  next
    case False
    then show ?thesis
      using Cons.IH
      by (simp add: resolve_pair_def Let_def split: list.splits option.splits sum.splits)
  qed
qed

lemma dict_set_fresh:
  "k \<notin> fst ` set d \<Longrightarrow> dict_set d k v = d @ [(k, v)]"
  by (induction d) auto

lemma foldl_dict_set_distinct:
  "distinct (map fst (d @ kvs)) \<Longrightarrow>
   foldl (\<lambda>d kv. dict_set d (fst kv) (snd kv)) d kvs = d @ kvs"
proof (induction kvs arbitrary: d)
  case Nil
  show ?case by simp
next
  case (Cons kv kvs)
  from Cons.prems have fresh: "fst kv \<notin> fst ` set d" by auto
  from Cons.prems have "distinct (map fst ((d @ [kv]) @ kvs))" by simp
  from Cons.IH[OF this] show ?case by (simp add: dict_set_fresh[OF fresh])
qed

lemma mapping_of_distinct: "distinct (map fst kvs) \<Longrightarrow> mapping_of kvs = kvs"
  using foldl_dict_set_distinct[of "[]" kvs] by (simp add: mapping_of_def)

lemma parse_dependencies_eq_parse_spec:
  "parse_dependencies apis reg s = parse_spec apis reg s"
  by (simp add: parse_dependencies_def parse_spec_def entries_def mapping_of_def parse_loop_staged
      split: sum.splits)

text \<open>An entry that does not resolve ends the loop: the entries after it are not looked at.\<close>

lemma parse_loop_first_error:
  "strip piece \<noteq> [] \<Longrightarrow> resolve_pair apis reg (strip piece) = Inl err \<Longrightarrow>
   parse_loop apis reg ds (piece # rest) = Inl err"
  by (simp add: parse_loop_staged)

lemma resolve_pair_unknown_provider:
  "split_str CHR ''='' e = [l, r] \<Longrightarrow> l \<in> set apis \<Longrightarrow> reg l = Some ps \<Longrightarrow>
   ps (strip r) = None \<Longrightarrow> resolve_pair apis reg e = Inl (ParserError (strip r) l)"
  by (simp add: resolve_pair_def)

lemma resolve_pair_unknown_api:
  "split_str CHR ''='' e = [l, r] \<Longrightarrow> l \<notin> set apis \<Longrightarrow>
   resolve_pair apis reg e = Inl (ValueError l)"
  by (simp add: resolve_pair_def)

text \<open>
  The mapping built from a list of pairs, described without \<open>dict_set\<close>: its keys are the
  keys of the pairs in the order of their first occurrence, and a key is bound to the
  value of its last pair.
\<close>

lemma resolve_all_map:
  "resolve_all apis reg es = Inr kvs \<longleftrightarrow> map (resolve_pair apis reg) es = map Inr kvs"
proof (induction es arbitrary: kvs)
  case Nil
  show ?case by auto
next
  case (Cons e es)
  show ?case
  proof (cases "resolve_pair apis reg e")
    case (Inl err)
    then show ?thesis by (cases kvs) auto
  next
    case (Inr kv)
    show ?thesis
    proof (cases "resolve_all apis reg es")
      case (Inl err)
      have "map (resolve_pair apis reg) es \<noteq> map Inr kvs'" for kvs'
        using Cons.IH[of kvs'] Inl by simp
      with Inl Inr show ?thesis by (cases kvs) auto
    next
      case r: (Inr kvs')
      have "map (resolve_pair apis reg) es = map Inr kvs'"
        using Cons.IH[of kvs'] r by simp
      with r Inr show ?thesis by (cases kvs) (auto simp: inj_map_eq_map[OF inj_Inr])
    qed
  qed
qed

lemma map_fst_dict_set:
  "map fst (dict_set d k v) = (if k \<in> fst ` set d then map fst d else map fst d @ [k])"
  by (induction d) force+

lemma map_of_dict_set: "map_of (dict_set d k v) = (map_of d)(k \<mapsto> v)"
  by (induction d) (auto simp: fun_eq_iff)

lemma mapping_of_snoc:
  "mapping_of (kvs @ [kv]) = dict_set (mapping_of kvs) (fst kv) (snd kv)"
  by (simp add: mapping_of_def)

lemma mapping_of_keys:
  "map fst (mapping_of kvs) = rev (remdups (rev (map fst kvs)))"
proof (induction kvs rule: rev_induct)
  case Nil
  show ?case by (simp add: mapping_of_def)
next
  case (snoc kv kvs)
  have "set (map fst (mapping_of kvs)) = fst ` set kvs"
    unfolding snoc.IH by auto
  then have "fst ` set (mapping_of kvs) = fst ` set kvs" by simp
  then show ?case
    by (simp add: mapping_of_snoc map_fst_dict_set snoc.IH)
qed

lemma mapping_of_lookup: "map_of (mapping_of kvs) = map_of (rev kvs)"
proof (induction kvs rule: rev_induct)
  case Nil
  show ?case by (simp add: mapping_of_def)
next
  case (snoc kv kvs)
  then show ?case
    by (cases kv) (simp add: mapping_of_snoc map_of_dict_set)
qed

text \<open>
  C4. For every dependency string the parser does what the staged description says: it
  splits on commas, trims each entry, skips the entries that are then empty, trims the
  provider id, and returns the pairs as a mapping in the order listed. When it returns a
  mapping, every entry has resolved to a pair; the keys of the mapping are the APIs of the
  pairs in the order in which each was first listed, and each API is bound to the provider
  listed for it last. When every entry resolves, it returns a mapping. Where no API is
  listed twice, the mapping is the list of pairs as listed. Trimming removes every
  character Python takes for white space, the no-break space and next line among them.
  The string \<open>a=p1,, b=p2 \<close>, with \<open>p1\<close> registered for \<open>a\<close> and \<open>p2\<close> for \<open>b\<close>, yields \<open>a\<close>
  with \<open>p1\<close>, then \<open>b\<close> with \<open>p2\<close>.
\<close>

theorem parse_dependencies_staged:
  "parse_dependencies apis reg s = parse_spec apis reg s
   \<and> (\<forall>m. parse_dependencies apis reg s = Inr m \<longrightarrow>
         (\<exists>kvs. map (resolve_pair apis reg) (entries s) = map Inr kvs
            \<and> map fst m = rev (remdups (rev (map fst kvs)))
            \<and> map_of m = map_of (rev kvs)))
   \<and> (\<forall>kvs. map (resolve_pair apis reg) (entries s) = map Inr kvs
         \<longrightarrow> (\<exists>m. parse_dependencies apis reg s = Inr m))
   \<and> (\<forall>kvs. resolve_all apis reg (entries s) = Inr kvs \<and> distinct (map fst kvs)
         \<longrightarrow> parse_dependencies apis reg s = Inr kvs)
   \<and> entries (CHR 0xA0 # '' a=p1 ,'' @ [CHR 0x09, CHR 0x85]) = [''a=p1'']
   \<and> (\<forall>pa pb s1 s2.
         ''a'' \<in> set apis \<and> ''b'' \<in> set apis \<and> reg ''a'' = Some pa \<and> pa ''p1'' = Some s1
           \<and> reg ''b'' = Some pb \<and> pb ''p2'' = Some s2
         \<longrightarrow> entries ''a=p1,, b=p2 '' = [''a=p1'', ''b=p2'']
           \<and> parse_dependencies apis reg ''a=p1,, b=p2 '' = Inr [(''a'', s1), (''b'', s2)])"
proof (intro conjI allI impI)
  show "parse_dependencies apis reg s = parse_spec apis reg s"
    by (rule parse_dependencies_eq_parse_spec)
next
  fix m assume "parse_dependencies apis reg s = Inr m"
  then obtain kvs where r: "resolve_all apis reg (entries s) = Inr kvs" and m: "m = mapping_of kvs"
    by (auto simp: parse_dependencies_eq_parse_spec parse_spec_def split: sum.splits)
  from r have "map (resolve_pair apis reg) (entries s) = map Inr kvs"
    by (simp add: resolve_all_map)
  with m show "\<exists>kvs. map (resolve_pair apis reg) (entries s) = map Inr kvs
            \<and> map fst m = rev (remdups (rev (map fst kvs)))
            \<and> map_of m = map_of (rev kvs)"
    using mapping_of_keys[of kvs] mapping_of_lookup[of kvs] by blast
next
  fix kvs assume "map (resolve_pair apis reg) (entries s) = map Inr kvs"
  then have "resolve_all apis reg (entries s) = Inr kvs" by (simp add: resolve_all_map)
  then show "\<exists>m. parse_dependencies apis reg s = Inr m"
    by (simp add: parse_dependencies_eq_parse_spec parse_spec_def)
next
  fix kvs assume "resolve_all apis reg (entries s) = Inr kvs \<and> distinct (map fst kvs)"
  then show "parse_dependencies apis reg s = Inr kvs"
    by (simp add: parse_dependencies_eq_parse_spec parse_spec_def mapping_of_distinct)
next
  show "entries (CHR 0xA0 # '' a=p1 ,'' @ [CHR 0x09, CHR 0x85]) = [''a=p1'']"
    by (simp add: entries_def split_str_def strip_def is_space_def)
next
  show "entries ''a=p1,, b=p2 '' = [''a=p1'', ''b=p2'']"
    by (simp add: entries_def split_str_def strip_def is_space_def)
next
  fix pa pb s1 s2
  assume "''a'' \<in> set apis \<and> ''b'' \<in> set apis \<and> reg ''a'' = Some pa \<and> pa ''p1'' = Some s1
           \<and> reg ''b'' = Some pb \<and> pb ''p2'' = Some s2"
  then show "parse_dependencies apis reg ''a=p1,, b=p2 '' = Inr [(''a'', s1), (''b'', s2)]"
    by (simp add: parse_dependencies_def split_str_def strip_def is_space_def)
qed

theorem parse_dependencies_staged_witness:
  "parse_dependencies [''a'', ''b'']
     [''a'' \<mapsto> [''p1'' \<mapsto> InlineProviderSpec 0 None], ''b'' \<mapsto> [''p2'' \<mapsto> RemoteProviderSpec None]]
     ''a=p1,, b=p2 ''
   = Inr [(''a'', InlineProviderSpec 0 None), (''b'', RemoteProviderSpec None)]
   \<and> parse_dependencies [''a'', ''b'']
     [''a'' \<mapsto> [''p1'' \<mapsto> InlineProviderSpec 0 None],
      ''b'' \<mapsto> [''p2'' \<mapsto> RemoteProviderSpec None, ''p3'' \<mapsto> InlineProviderSpec 2 None]]
     (''b=p2,'' @ [CHR 0xA0] @ ''a= p1'' @ [CHR 0x85] @ '',b=p3'')
   = Inr [(''b'', InlineProviderSpec 2 None), (''a'', InlineProviderSpec 0 None)]"
proof -
  let ?reg = "[''a'' \<mapsto> [''p1'' \<mapsto> InlineProviderSpec 0 None],
               ''b'' \<mapsto> [''p2'' \<mapsto> RemoteProviderSpec None]]"
  have "''a'' \<in> set [''a'', ''b''] \<and> ''b'' \<in> set [''a'', ''b'']
      \<and> ?reg ''a'' = Some [''p1'' \<mapsto> InlineProviderSpec 0 None]
      \<and> [''p1'' \<mapsto> InlineProviderSpec 0 None] ''p1'' = Some (InlineProviderSpec 0 None)
      \<and> ?reg ''b'' = Some [''p2'' \<mapsto> RemoteProviderSpec None]
      \<and> [''p2'' \<mapsto> RemoteProviderSpec None] ''p2'' = Some (RemoteProviderSpec None)"
    by simp
  with parse_dependencies_staged [of "[''a'', ''b'']" ?reg "[]"]
  have 1: "parse_dependencies [''a'', ''b''] ?reg ''a=p1,, b=p2 ''
     = Inr [(''a'', InlineProviderSpec 0 None), (''b'', RemoteProviderSpec None)]" by blast
  have 2: "parse_dependencies [''a'', ''b'']
     [''a'' \<mapsto> [''p1'' \<mapsto> InlineProviderSpec 0 None],
      ''b'' \<mapsto> [''p2'' \<mapsto> RemoteProviderSpec None, ''p3'' \<mapsto> InlineProviderSpec 2 None]]
     (''b=p2,'' @ [CHR 0xA0] @ ''a= p1'' @ [CHR 0x85] @ '',b=p3'')
   = Inr [(''b'', InlineProviderSpec 2 None), (''a'', InlineProviderSpec 0 None)]"
    by (simp add: parse_dependencies_def split_str_def strip_def is_space_def)
  from 1 2 show ?thesis by simp
qed

text \<open>
  C5. An entry with an unknown name is claimed to end the parse with a usage error. That
  holds for an unknown provider, where \<open>parser.error\<close> is called. An unknown API name is
  handed to the constructor of the enum \<open>Api\<close>, whose \<open>ValueError\<close> nothing catches.
\<close>

theorem parse_dependencies_unknown_api:
  "parse_dependencies [''inference'', ''safety''] example_registry ''bogus=guard''
     = Inl (ValueError ''bogus'')
   \<and> parse_dependencies [''inference'', ''safety''] example_registry ''safety=nope''
     = Inl (ParserError ''nope'' ''safety'')"
  by (simp add: parse_dependencies_def split_str_def strip_def is_space_def example_registry_def)

section \<open>Properties of the package name\<close>

lemma replace_sep_head:
  "b \<noteq> CHR '':'' \<Longrightarrow> replace_sep (b # s) = b # replace_sep s"
  by (cases s) auto

lemma has_sep_Cons:
  "has_sep (a # t) \<longleftrightarrow> (a = CHR '':'' \<and> (\<exists>t'. t = CHR '':'' # t')) \<or> has_sep t"
  by (cases t) auto

lemma replace_sep_no_sep: "\<not> has_sep (replace_sep s)"
proof (induction s rule: replace_sep.induct)
  case (1 a b s)
  show ?case
  proof (cases "a = CHR '':'' \<and> b = CHR '':''")
    case True
    with 1 show ?thesis by (simp add: has_sep_Cons)
  next
    case False
    with 1 have ih: "\<not> has_sep (replace_sep (b # s))" by simp
    from False have step: "replace_sep (a # b # s) = a # replace_sep (b # s)" by simp
    show ?thesis
    proof (cases "a = CHR '':''")
      case True
      with False have "b \<noteq> CHR '':''" by simp
      then have "replace_sep (b # s) = b # replace_sep s" by (rule replace_sep_head)
      with ih \<open>b \<noteq> CHR '':''\<close> show ?thesis unfolding step by simp
    next
      case False
      with ih show ?thesis unfolding step by (subst has_sep_Cons) simp
    qed
  qed
qed simp_all

lemma replace_sep_id: "\<not> has_sep s \<Longrightarrow> replace_sep s = s"
  by (induction s rule: replace_sep.induct) auto

lemma replace_sep_leftmost:
  "\<not> has_sep (u @ '':'') \<Longrightarrow> replace_sep (u @ ''::'' @ v) = u @ ''-'' @ replace_sep v"
  by (induction u rule: replace_sep.induct) (auto simp: has_sep_Cons)

text \<open>
  C6. For every provider id, name and build kind, the package name is the prefix
  \<open>image-\<close> (container) or \<open>env-\<close> (environment), the provider id, a hyphen and the name,
  in which every occurrence of \<open>::\<close> is then replaced by a hyphen. The replacement goes from
  the left: the text before the leftmost \<open>::\<close> stays, the \<open>::\<close> becomes a hyphen, the rest
  is treated the same way; a text without \<open>::\<close> stays as it is; no \<open>::\<close> is left in the
  result. Provider id \<open>foo::bar\<close>, name \<open>baz\<close>, kind container give \<open>image-foo-bar-baz\<close>.
\<close>

theorem package_name_derivation:
  "package_name ty pid name =
     replace_sep ((case ty of container \<Rightarrow> ''image-'' | conda_env \<Rightarrow> ''env-'') @ pid @ ''-'' @ name)
   \<and> \<not> has_sep (package_name ty pid name)
   \<and> (\<forall>u v. \<not> has_sep (u @ '':'') \<longrightarrow>
         replace_sep (u @ ''::'' @ v) = u @ ''-'' @ replace_sep v)
   \<and> (\<forall>s. \<not> has_sep s \<longrightarrow> replace_sep s = s)
   \<and> package_name container ''foo::bar'' ''baz'' = ''image-foo-bar-baz''"
proof (intro conjI allI impI)
  show "package_name ty pid name =
     replace_sep ((case ty of container \<Rightarrow> ''image-'' | conda_env \<Rightarrow> ''env-'') @ pid @ ''-'' @ name)"
    by (cases ty) (simp_all add: package_name_def)
  show "\<not> has_sep (package_name ty pid name)"
    by (simp add: package_name_def replace_sep_no_sep del: replace_sep.simps)
  show "package_name container ''foo::bar'' ''baz'' = ''image-foo-bar-baz''"
    by (simp add: package_name_def)
next
  fix u v assume "\<not> has_sep (u @ '':'')"
  then show "replace_sep (u @ ''::'' @ v) = u @ ''-'' @ replace_sep v"
    by (rule replace_sep_leftmost)
next
  fix s assume "\<not> has_sep s"
  then show "replace_sep s = s" by (rule replace_sep_id)
qed

theorem package_name_derivation_witness:
  "package_name conda_env ''meta::ref::v1'' ''n'' = ''env-meta-ref-v1-n''"
proof -
  have a: "\<not> has_sep (''env-meta'' @ '':'')" by simp
  have b: "\<not> has_sep (''ref'' @ '':'')" by simp
  have c: "\<not> has_sep ''v1-n''" by simp
  from package_name_derivation [of conda_env "''meta::ref::v1''" "''n''"]
  have "package_name conda_env ''meta::ref::v1'' ''n''
      = replace_sep (''env-meta'' @ ''::'' @ (''ref'' @ ''::'' @ ''v1-n''))"
    by simp
  also from package_name_derivation [of conda_env "[]" "[]"] a
  have "\<dots> = ''env-meta'' @ ''-'' @ replace_sep (''ref'' @ ''::'' @ ''v1-n'')" by blast
  also from package_name_derivation [of conda_env "[]" "[]"] b
  have "replace_sep (''ref'' @ ''::'' @ ''v1-n'') = ''ref'' @ ''-'' @ replace_sep ''v1-n''" by blast
  also from package_name_derivation [of conda_env "[]" "[]"] c
  have "replace_sep ''v1-n'' = ''v1-n''" by blast
  finally show ?thesis by simp
qed

section \<open>Properties of the build command\<close>

text \<open>
  An event other than the making of a directory shows that the provider was found and that
  the parser and the merger succeeded: the run then ends in \<open>write_and_build\<close>.
\<close>

lemma run_reaches_write:
  assumes "e \<in> set (events (run_api_build_command E h args))" "\<forall>p. e \<noteq> Makedirs p"
  shows "\<exists>providers spec provider_deps d h'.
           api_providers E (arg_api args) = Some providers
         \<and> providers (arg_provider args) = Some spec
         \<and> parse_dependencies (Api_values E) (api_providers E)
               (dependencies_or_empty (arg_dependencies args)) = Inr provider_deps
         \<and> get_dependencies h spec provider_deps = (Inr d, h')
         \<and> run_api_build_command E h args =
             write_and_build E args
               [Makedirs (BUILDS_BASE_DIR E), Makedirs (path_join (BUILDS_BASE_DIR E) (arg_api args))]
               h' (resolved_package_name E args) (path_join (BUILDS_BASE_DIR E) (arg_api args))
               provider_deps d"
  using assms
  by (auto simp: run_api_build_command_def finish_def Let_def resolved_package_name_def
      split: if_splits option.splits sum.splits prod.splits)

lemma write_and_build_WriteFile:
  assumes "WriteFile path doc \<in> set (events (write_and_build E args evs h pkg dir pd d))"
    "\<forall>e \<in> set evs. \<forall>p c. e \<noteq> WriteFile p c"
  shows "doc = config_dict (make_config E (arg_type args) pkg
                 (stub_config (arg_api args) (arg_provider args) pd))"
  using assms
  by (auto simp: write_and_build_def finish_def Let_def split: if_splits)

lemma write_and_build_RunScript:
  assumes "RunScript argv \<in> set (events (write_and_build E args evs h pkg dir pd d))"
    "\<forall>e \<in> set evs. \<not> is_run e"
  shows "argv = script_args E (arg_type args) (arg_api args) pkg d"
  using assms
  by (auto simp: write_and_build_def finish_def Let_def split: if_splits)

lemma write_and_build_exit:
  assumes "RunScript argv \<in> set (events (write_and_build E args evs h pkg dir pd d))"
    "\<forall>e \<in> set evs. \<not> is_run e \<and> \<not> is_cprint e"
  shows "(run_with_pty E argv = 0 \<longrightarrow>
            raised (write_and_build E args evs h pkg dir pd d) = Some (NameError ''target_name'')
          \<and> filter is_cprint (events (write_and_build E args evs h pkg dir pd d)) = [])
       \<and> (run_with_pty E argv \<noteq> 0 \<longrightarrow>
            raised (write_and_build E args evs h pkg dir pd d) = Some AssertionError
          \<and> filter is_cprint (events (write_and_build E args evs h pkg dir pd d))
              = [Cprint (''Failed to build target '' @ pkg) ''red''])
       \<and> filter is_run (events (write_and_build E args evs h pkg dir pd d)) = [RunScript argv]"
proof -
  from assms(2) have f: "filter is_cprint evs = []" "filter is_run evs = []"
    by (auto simp: filter_empty_conv)
  from assms(1,2) have argv: "argv = script_args E (arg_type args) (arg_api args) pkg d"
    by (rule_tac write_and_build_RunScript) auto
  from assms(1) have op: "can_open E (path_join dir (pkg @ ''.yaml''))"
    using assms(2) by (auto simp: write_and_build_def finish_def Let_def split: if_splits)
  show ?thesis
    using f op by (simp add: write_and_build_def finish_def Let_def argv)
qed


text \<open>
  How the exit code of the build script decides the end of the command. The script is run
  exactly once.
\<close>

lemma run_api_build_command_exit:
  assumes "RunScript argv \<in> set (events (run_api_build_command E h args))"
  shows "(run_with_pty E argv = 0 \<longrightarrow>
            raised (run_api_build_command E h args) = Some (NameError ''target_name'')
          \<and> filter is_cprint (events (run_api_build_command E h args)) = [])
       \<and> (run_with_pty E argv \<noteq> 0 \<longrightarrow>
            raised (run_api_build_command E h args) = Some AssertionError
          \<and> filter is_cprint (events (run_api_build_command E h args))
              = [Cprint (''Failed to build target '' @ resolved_package_name E args) ''red''])
       \<and> filter is_run (events (run_api_build_command E h args)) = [RunScript argv]"
proof -
  from run_reaches_write[OF assms] obtain pd d h' where
    eq: "run_api_build_command E h args =
           write_and_build E args
             [Makedirs (BUILDS_BASE_DIR E), Makedirs (path_join (BUILDS_BASE_DIR E) (arg_api args))]
             h' (resolved_package_name E args) (path_join (BUILDS_BASE_DIR E) (arg_api args)) pd d"
    by auto
  from assms show ?thesis
    unfolding eq by (rule write_and_build_exit) simp
qed

lemma example_parse:
  "parse_dependencies [''inference'', ''safety''] example_registry ''safety=guard''
     = Inr [(''safety'', InlineProviderSpec 2 None)]"
  by (simp add: parse_dependencies_def split_str_def strip_def is_space_def example_registry_def)

lemma example_merge:
  "get_dependencies example_heap (InlineProviderSpec 0 None) [(''safety'', InlineProviderSpec 2 None)]
     = (Inr \<lparr>dep_pip_packages = [''x'', ''y''], dep_docker_image = None\<rparr>,
        example_heap(0 := [''x'', ''y'']))"
  by (simp add: get_dependencies_def example_heap_def)

lemma example_run_start:
  "run_api_build_command (example_env rc) example_heap (example_args ty) =
     write_and_build (example_env rc) (example_args ty)
       [Makedirs ''/builds'', Makedirs ''/builds/inference'']
       (example_heap(0 := [''x'', ''y'']))
       (package_name ty ''foo::bar'' ''baz'') ''/builds/inference''
       [(''safety'', InlineProviderSpec 2 None)]
       \<lparr>dep_pip_packages = [''x'', ''y''], dep_docker_image = None\<rparr>"
proof -
  have reg: "api_providers (example_env rc) ''inference''
               = Some [''foo::bar'' \<mapsto> InlineProviderSpec 0 None]"
    by (simp add: example_env_def example_registry_def)
  have parse: "parse_dependencies (Api_values (example_env rc)) (api_providers (example_env rc))
                 ''safety=guard'' = Inr [(''safety'', InlineProviderSpec 2 None)]"
    using example_parse by (simp add: example_env_def)
  have env: "can_makedirs (example_env rc) p" "BUILDS_BASE_DIR (example_env rc) = ''/builds''"
    "''inference'' \<in> set (Api_values (example_env rc))" for p
    by (simp_all add: example_env_def)
  show ?thesis
    by (simp add: run_api_build_command_def example_args_def reg parse example_merge env Let_def
        path_join_def)
qed

lemma example_run_container:
  "run_api_build_command (example_env 0) example_heap (example_args container) =
     \<lparr>events =
        [Makedirs ''/builds'', Makedirs ''/builds/inference'',
         WriteFile ''/builds/inference/image-foo-bar-baz.yaml''
           [(''built_at'', YTimestamp 0),
            (''package_name'', YStr ''image-foo-bar-baz''),
            (''docker_image'', YStr ''image-foo-bar-baz''),
            (''conda_env'', YNull),
            (''providers'', YProviders
               [(StrKey ''inference'', ProviderId ''foo::bar''),
                (ApiKey ''safety'', ProviderObject (InlineProviderSpec 2 None))])],
         RunScript [''llama_toolchain/distribution/build_container.sh'', ''inference'',
           ''image-foo-bar-baz'', ''python:3.10-slim'', ''x y'']],
      raised = Some (NameError ''target_name''),
      heap_after = example_heap(0 := [''x'', ''y''])\<rparr>"
proof -
  have pkg: "package_name container ''foo::bar'' ''baz'' = ''image-foo-bar-baz''"
    by (simp add: package_name_def)
  show ?thesis
    unfolding example_run_start pkg
    by (simp add: write_and_build_def example_args_def example_env_def Let_def
        path_join_def finish_def make_config_def config_dict_def
        stub_config_def script_args_def default_image_def)
qed

lemma example_run_conda_env:
  "run_api_build_command (example_env 0) example_heap (example_args conda_env) =
     \<lparr>events =
        [Makedirs ''/builds'', Makedirs ''/builds/inference'',
         WriteFile ''/builds/inference/env-foo-bar-baz.yaml''
           [(''built_at'', YTimestamp 0),
            (''package_name'', YStr ''env-foo-bar-baz''),
            (''docker_image'', YNull),
            (''conda_env'', YStr ''env-foo-bar-baz''),
            (''providers'', YProviders
               [(StrKey ''inference'', ProviderId ''foo::bar''),
                (ApiKey ''safety'', ProviderObject (InlineProviderSpec 2 None))])],
         RunScript [''llama_toolchain/distribution/build_conda_env.sh'', ''inference'',
           ''env-foo-bar-baz'', ''x y'']],
      raised = Some (NameError ''target_name''),
      heap_after = example_heap(0 := [''x'', ''y''])\<rparr>"
proof -
  have pkg: "package_name conda_env ''foo::bar'' ''baz'' = ''env-foo-bar-baz''"
    by (simp add: package_name_def)
  show ?thesis
    unfolding example_run_start pkg
    by (simp add: write_and_build_def example_args_def example_env_def Let_def
        path_join_def finish_def make_config_def config_dict_def
        stub_config_def script_args_def default_image_def)
qed


text \<open>
  When the provider is found, the parser and the merger succeed and the file system lets
  the command make its directories, the run ends in \<open>write_and_build\<close>; and when the
  descriptor file can be opened, that part writes the descriptor, runs the script and, on
  a non-zero exit code, prints the failure.
\<close>

lemma run_with_inputs_ok:
  assumes "can_makedirs E (BUILDS_BASE_DIR E)" "arg_api args \<in> set (Api_values E)"
    "api_providers E (arg_api args) = Some providers" "providers (arg_provider args) = Some spec"
    "can_makedirs E (path_join (BUILDS_BASE_DIR E) (arg_api args))"
    "parse_dependencies (Api_values E) (api_providers E)
       (dependencies_or_empty (arg_dependencies args)) = Inr pd"
    "fst (get_dependencies h spec pd) = Inr d"
  shows "run_api_build_command E h args =
           write_and_build E args
             [Makedirs (BUILDS_BASE_DIR E), Makedirs (path_join (BUILDS_BASE_DIR E) (arg_api args))]
             (snd (get_dependencies h spec pd)) (resolved_package_name E args)
             (path_join (BUILDS_BASE_DIR E) (arg_api args)) pd d"
  using assms
  by (cases "get_dependencies h spec pd")
     (simp add: run_api_build_command_def Let_def resolved_package_name_def)

lemma write_and_build_events:
  assumes "can_open E (path_join dir (pkg @ ''.yaml''))"
  shows "events (write_and_build E args evs h pkg dir pd d) =
           evs @ [WriteFile (path_join dir (pkg @ ''.yaml''))
                    (config_dict (make_config E (arg_type args) pkg
                       (stub_config (arg_api args) (arg_provider args) pd))),
                  RunScript (script_args E (arg_type args) (arg_api args) pkg d)]
               @ (if run_with_pty E (script_args E (arg_type args) (arg_api args) pkg d) \<noteq> 0
                  then [Cprint (''Failed to build target '' @ pkg) ''red''] else [])"
  using assms by (simp add: write_and_build_def finish_def Let_def)

lemma write_and_build_no_open:
  assumes "\<not> can_open E (path_join dir (pkg @ ''.yaml''))"
  shows "events (write_and_build E args evs h pkg dir pd d) = evs"
  using assms by (simp add: write_and_build_def finish_def Let_def)

text \<open>
  C7. An invocation counts as successful when the build script has run and has exited with
  the code 0. Whenever the provider is found, the parser and the merger succeed and the
  file system permits, the command writes exactly one descriptor, at the descriptor path;
  in every successful invocation the run consists of the two directories made, the
  descriptor written and the script run, in that order; and every descriptor the command
  writes has the five keys in the fixed order, none left out: for the kind container the
  image field holds the derived package name and the environment field is null, for the
  kind isolated environment it is the other way round.
\<close>

theorem descriptor_image_and_environment:
  "(can_makedirs E (BUILDS_BASE_DIR E) \<and> arg_api args \<in> set (Api_values E)
      \<and> api_providers E (arg_api args) = Some providers
      \<and> providers (arg_provider args) = Some spec
      \<and> can_makedirs E (path_join (BUILDS_BASE_DIR E) (arg_api args))
      \<and> parse_dependencies (Api_values E) (api_providers E)
           (dependencies_or_empty (arg_dependencies args)) = Inr pd
      \<and> fst (get_dependencies h spec pd) = Inr d
      \<and> can_open E (descriptor_path E args)
    \<longrightarrow> (\<exists>doc. filter is_write (events (run_api_build_command E h args))
                  = [WriteFile (descriptor_path E args) doc]))
   \<and> (\<forall>argv. RunScript argv \<in> set (events (run_api_build_command E h args))
               \<and> run_with_pty E argv = 0
         \<longrightarrow> (\<exists>doc. events (run_api_build_command E h args)
                  = [Makedirs (BUILDS_BASE_DIR E),
                     Makedirs (path_join (BUILDS_BASE_DIR E) (arg_api args)),
                     WriteFile (descriptor_path E args) doc,
                     RunScript argv]))
   \<and> (\<forall>path doc. WriteFile path doc \<in> set (events (run_api_build_command E h args))
         \<longrightarrow> path = descriptor_path E args
           \<and> map fst doc
               = [''built_at'', ''package_name'', ''docker_image'', ''conda_env'', ''providers'']
           \<and> map_of doc ''package_name'' = Some (YStr (resolved_package_name E args))
           \<and> (arg_type args = container \<longrightarrow>
                map_of doc ''docker_image'' = Some (YStr (resolved_package_name E args))
              \<and> map_of doc ''conda_env'' = Some YNull)
           \<and> (arg_type args = conda_env \<longrightarrow>
                map_of doc ''conda_env'' = Some (YStr (resolved_package_name E args))
              \<and> map_of doc ''docker_image'' = Some YNull))"
proof -
  let ?run = "run_api_build_command E h args"
  let ?dir = "path_join (BUILDS_BASE_DIR E) (arg_api args)"
  let ?pkg = "resolved_package_name E args"
  let ?evs = "[Makedirs (BUILDS_BASE_DIR E), Makedirs ?dir]"
  have path: "descriptor_path E args = path_join ?dir (?pkg @ ''.yaml'')"
    by (simp add: descriptor_path_def)
  have written: "\<exists>doc. filter is_write (events ?run) = [WriteFile (descriptor_path E args) doc]"
    if "can_makedirs E (BUILDS_BASE_DIR E) \<and> arg_api args \<in> set (Api_values E)
      \<and> api_providers E (arg_api args) = Some providers
      \<and> providers (arg_provider args) = Some spec
      \<and> can_makedirs E ?dir
      \<and> parse_dependencies (Api_values E) (api_providers E)
           (dependencies_or_empty (arg_dependencies args)) = Inr pd
      \<and> fst (get_dependencies h spec pd) = Inr d
      \<and> can_open E (descriptor_path E args)"
  proof -
    from that run_with_inputs_ok[of E args providers spec pd h d]
    have eq: "?run = write_and_build E args ?evs (snd (get_dependencies h spec pd))
                                ?pkg ?dir pd d"
      by blast
    from that have "can_open E (path_join ?dir (?pkg @ ''.yaml''))" by (simp add: path)
    from write_and_build_events[OF this] show ?thesis
      unfolding eq path by simp
  qed
  have reached: "\<exists>pd d h'. ?run = write_and_build E args ?evs h' ?pkg ?dir pd d
                   \<and> can_open E (path_join ?dir (?pkg @ ''.yaml''))"
    if mem: "e \<in> set (events ?run)" and nm: "\<forall>p. e \<noteq> Makedirs p" for e
  proof -
    from run_reaches_write[OF mem nm] obtain pd d h' where
      eq: "?run = write_and_build E args ?evs h' ?pkg ?dir pd d" by auto
    have "can_open E (path_join ?dir (?pkg @ ''.yaml''))"
    proof (rule ccontr)
      assume "\<not> can_open E (path_join ?dir (?pkg @ ''.yaml''))"
      from write_and_build_no_open[OF this] have "events ?run = ?evs" unfolding eq .
      with mem nm show False by auto
    qed
    with eq show ?thesis by blast
  qed
  have success: "\<exists>doc. events ?run = ?evs @ [WriteFile (descriptor_path E args) doc, RunScript argv]"
    if "RunScript argv \<in> set (events ?run) \<and> run_with_pty E argv = 0" for argv
  proof -
    from that reached[of "RunScript argv"] obtain pd d h' where
      eq: "?run = write_and_build E args ?evs h' ?pkg ?dir pd d"
      and op: "can_open E (path_join ?dir (?pkg @ ''.yaml''))" by auto
    from that have "argv = script_args E (arg_type args) (arg_api args) ?pkg d"
      unfolding eq by (intro write_and_build_RunScript[of argv E args ?evs h' ?pkg ?dir pd d]) simp_all
    with that write_and_build_events[OF op, of args ?evs h' pd d] show ?thesis
      unfolding eq path by simp
  qed
  have fields: "path = descriptor_path E args
           \<and> map fst doc
               = [''built_at'', ''package_name'', ''docker_image'', ''conda_env'', ''providers'']
           \<and> map_of doc ''package_name'' = Some (YStr ?pkg)
           \<and> (arg_type args = container \<longrightarrow>
                map_of doc ''docker_image'' = Some (YStr ?pkg)
              \<and> map_of doc ''conda_env'' = Some YNull)
           \<and> (arg_type args = conda_env \<longrightarrow>
                map_of doc ''conda_env'' = Some (YStr ?pkg)
              \<and> map_of doc ''docker_image'' = Some YNull)"
    if w: "WriteFile path doc \<in> set (events ?run)" for path doc
  proof -
    from w reached[of "WriteFile path doc"] obtain pd d h' where
      eq: "?run = write_and_build E args ?evs h' ?pkg ?dir pd d"
      and op: "can_open E (path_join ?dir (?pkg @ ''.yaml''))" by auto
    from w have "WriteFile path doc \<in> set (events (write_and_build E args ?evs h' ?pkg ?dir pd d))"
      unfolding eq .
    then have "path = path_join ?dir (?pkg @ ''.yaml'')
        \<and> doc = config_dict (make_config E (arg_type args) ?pkg
                 (stub_config (arg_api args) (arg_provider args) pd))"
      unfolding write_and_build_events[OF op] by (auto split: if_splits)
    then show ?thesis by (simp add: path config_dict_def make_config_def)
  qed
  from written success fields show ?thesis by simp
qed

theorem descriptor_image_and_environment_witness:
  "(\<exists>doc.
      filter is_write
        (events (run_api_build_command (example_env 0) example_heap (example_args container)))
        = [WriteFile ''/builds/inference/image-foo-bar-baz.yaml'' doc]
    \<and> map_of doc ''docker_image'' = Some (YStr ''image-foo-bar-baz'')
    \<and> map_of doc ''conda_env'' = Some YNull)
   \<and> (\<exists>doc.
      filter is_write
        (events (run_api_build_command (example_env 0) example_heap (example_args conda_env)))
        = [WriteFile ''/builds/inference/env-foo-bar-baz.yaml'' doc]
    \<and> map_of doc ''conda_env'' = Some (YStr ''env-foo-bar-baz'')
    \<and> map_of doc ''docker_image'' = Some YNull)"
proof -
  let ?E = "example_env 0"
  let ?spec = "InlineProviderSpec 0 None"
  let ?pd = "[(''safety'', InlineProviderSpec 2 None)]"
  let ?d = "\<lparr>dep_pip_packages = [''x'', ''y''], dep_docker_image = None\<rparr>"
  have n: "resolved_package_name ?E (example_args ty) = package_name ty ''foo::bar'' ''baz''" for ty
    by (simp add: resolved_package_name_def example_env_def example_args_def)
  have pc: "package_name container ''foo::bar'' ''baz'' = ''image-foo-bar-baz''"
    and pe: "package_name conda_env ''foo::bar'' ''baz'' = ''env-foo-bar-baz''"
    by (simp_all add: package_name_def)
  have dc: "descriptor_path ?E (example_args container) = ''/builds/inference/image-foo-bar-baz.yaml''"
    and de: "descriptor_path ?E (example_args conda_env) = ''/builds/inference/env-foo-bar-baz.yaml''"
    by (simp_all add: descriptor_path_def n pc pe path_join_def)
       (simp_all add: example_env_def example_args_def)
  have pre: "can_makedirs ?E (BUILDS_BASE_DIR ?E) \<and> arg_api (example_args ty) \<in> set (Api_values ?E)
      \<and> api_providers ?E (arg_api (example_args ty)) = Some [''foo::bar'' \<mapsto> ?spec]
      \<and> [''foo::bar'' \<mapsto> ?spec] (arg_provider (example_args ty)) = Some ?spec
      \<and> can_makedirs ?E (path_join (BUILDS_BASE_DIR ?E) (arg_api (example_args ty)))
      \<and> parse_dependencies (Api_values ?E) (api_providers ?E)
           (dependencies_or_empty (arg_dependencies (example_args ty))) = Inr ?pd
      \<and> fst (get_dependencies example_heap ?spec ?pd) = Inr ?d
      \<and> can_open ?E (descriptor_path ?E (example_args ty))" for ty
    using example_parse example_merge
    by (simp add: example_env_def example_args_def example_registry_def)
  have t1: "arg_type (example_args container) = container"
    and t2: "arg_type (example_args conda_env) = conda_env"
    by (simp_all add: example_args_def)
  from descriptor_image_and_environment
         [of ?E "example_args container" "[''foo::bar'' \<mapsto> ?spec]" ?spec ?pd example_heap ?d]
       pre[of container]
  obtain d1 where w1: "filter is_write (events (run_api_build_command ?E example_heap
                         (example_args container)))
                       = [WriteFile (descriptor_path ?E (example_args container)) d1]"
    by blast
  then have "WriteFile (descriptor_path ?E (example_args container)) d1
               \<in> set (filter is_write (events (run_api_build_command ?E example_heap
                         (example_args container))))" by simp
  then have m1: "WriteFile (descriptor_path ?E (example_args container)) d1
               \<in> set (events (run_api_build_command ?E example_heap (example_args container)))"
    by simp
  from descriptor_image_and_environment
         [of ?E "example_args container" "[''foo::bar'' \<mapsto> ?spec]" ?spec ?pd example_heap ?d]
       m1 t1
  have f1: "map_of d1 ''docker_image'' = Some (YStr ''image-foo-bar-baz'')
      \<and> map_of d1 ''conda_env'' = Some YNull"
    unfolding n pc by blast
  from descriptor_image_and_environment
         [of ?E "example_args conda_env" "[''foo::bar'' \<mapsto> ?spec]" ?spec ?pd example_heap ?d]
       pre[of conda_env]
  obtain d2 where w2: "filter is_write (events (run_api_build_command ?E example_heap
                         (example_args conda_env)))
                       = [WriteFile (descriptor_path ?E (example_args conda_env)) d2]"
    by blast
  then have "WriteFile (descriptor_path ?E (example_args conda_env)) d2
               \<in> set (filter is_write (events (run_api_build_command ?E example_heap
                         (example_args conda_env))))" by simp
  then have m2: "WriteFile (descriptor_path ?E (example_args conda_env)) d2
               \<in> set (events (run_api_build_command ?E example_heap (example_args conda_env)))"
    by simp
  from descriptor_image_and_environment
         [of ?E "example_args conda_env" "[''foo::bar'' \<mapsto> ?spec]" ?spec ?pd example_heap ?d]
       m2 t2
  have f2: "map_of d2 ''conda_env'' = Some (YStr ''env-foo-bar-baz'')
      \<and> map_of d2 ''docker_image'' = Some YNull"
    unfolding n pe by blast
  from w1 f1 w2 f2 show ?thesis unfolding dc de by blast
qed

text \<open>
  C8. Whenever the command runs the build script, the provider was found and the parser and
  the merger have succeeded, and the arguments after the script's path are: for the kind
  container the API name, the package name, the image of the merge result or, when that is
  \<open>None\<close> or empty, the default \<open>python:3.10-slim\<close>, and the packages of the merge result
  joined by single spaces; for the kind isolated environment the same without the image.
\<close>

theorem build_script_arguments:
  assumes "RunScript argv \<in> set (events (run_api_build_command E h args))"
  shows "\<exists>providers spec provider_deps d h'.
           api_providers E (arg_api args) = Some providers
         \<and> providers (arg_provider args) = Some spec
         \<and> parse_dependencies (Api_values E) (api_providers E)
               (dependencies_or_empty (arg_dependencies args)) = Inr provider_deps
         \<and> get_dependencies h spec provider_deps = (Inr d, h')
         \<and> (arg_type args = container \<longrightarrow>
              argv = [resource_filename E ''llama_toolchain'' ''distribution/build_container.sh'',
                      arg_api args,
                      resolved_package_name E args,
                      (case dep_docker_image d of
                         Some img \<Rightarrow> if img \<noteq> [] then img else ''python:3.10-slim''
                       | None \<Rightarrow> ''python:3.10-slim''),
                      join (dep_pip_packages d)])
         \<and> (arg_type args = conda_env \<longrightarrow>
              argv = [resource_filename E ''llama_toolchain'' ''distribution/build_conda_env.sh'',
                      arg_api args,
                      resolved_package_name E args,
                      join (dep_pip_packages d)])"
proof -
  from assms have "RunScript argv \<in> set (events (run_api_build_command E h args))
      \<and> (\<forall>p. RunScript argv \<noteq> Makedirs p)" by simp
  then obtain providers spec pd d h' where
    reg: "api_providers E (arg_api args) = Some providers"
      "providers (arg_provider args) = Some spec"
    and parse: "parse_dependencies (Api_values E) (api_providers E)
               (dependencies_or_empty (arg_dependencies args)) = Inr pd"
    and merge: "get_dependencies h spec pd = (Inr d, h')"
    and eq: "run_api_build_command E h args =
           write_and_build E args
             [Makedirs (BUILDS_BASE_DIR E), Makedirs (path_join (BUILDS_BASE_DIR E) (arg_api args))]
             h' (resolved_package_name E args) (path_join (BUILDS_BASE_DIR E) (arg_api args)) pd d"
    using run_reaches_write[of "RunScript argv" E h args] by auto
  from assms have argv: "argv = script_args E (arg_type args) (arg_api args)
                            (resolved_package_name E args) d"
    unfolding eq by (rule write_and_build_RunScript) simp
  have "(arg_type args = container \<longrightarrow>
              argv = [resource_filename E ''llama_toolchain'' ''distribution/build_container.sh'',
                      arg_api args,
                      resolved_package_name E args,
                      (case dep_docker_image d of
                         Some img \<Rightarrow> if img \<noteq> [] then img else ''python:3.10-slim''
                       | None \<Rightarrow> ''python:3.10-slim''),
                      join (dep_pip_packages d)])
         \<and> (arg_type args = conda_env \<longrightarrow>
              argv = [resource_filename E ''llama_toolchain'' ''distribution/build_conda_env.sh'',
                      arg_api args,
                      resolved_package_name E args,
                      join (dep_pip_packages d)])"
    unfolding argv
    by (cases "dep_docker_image d") (simp_all add: script_args_def default_image_def)
  with reg parse merge show ?thesis by blast
qed

theorem build_script_arguments_witness:
  "RunScript [''llama_toolchain/distribution/build_container.sh'', ''inference'',
              ''image-foo-bar-baz'', ''python:3.10-slim'', ''x y'']
     \<in> set (events (run_api_build_command (example_env 0) example_heap (example_args container)))
   \<and> (\<exists>d. fst (get_dependencies example_heap (InlineProviderSpec 0 None)
                  [(''safety'', InlineProviderSpec 2 None)]) = Inr d
        \<and> dep_docker_image d = None
        \<and> join (dep_pip_packages d) = ''x y'')"
proof -
  let ?argv = "[''llama_toolchain/distribution/build_container.sh'', ''inference'',
              ''image-foo-bar-baz'', ''python:3.10-slim'', ''x y'']"
  have mem: "RunScript ?argv
     \<in> set (events (run_api_build_command (example_env 0) example_heap (example_args container)))"
    unfolding example_run_container by simp
  have env: "api_providers (example_env 0) (arg_api (example_args container))
               = Some [''foo::bar'' \<mapsto> InlineProviderSpec 0 None]"
    "arg_provider (example_args container) = ''foo::bar''"
    "arg_type (example_args container) = container"
    "parse_dependencies (Api_values (example_env 0)) (api_providers (example_env 0))
       (dependencies_or_empty (arg_dependencies (example_args container)))
     = Inr [(''safety'', InlineProviderSpec 2 None)]"
    using example_parse
    by (simp_all add: example_env_def example_args_def example_registry_def)
  from build_script_arguments[OF mem] obtain d h' where
    m: "get_dependencies example_heap (InlineProviderSpec 0 None)
          [(''safety'', InlineProviderSpec 2 None)] = (Inr d, h')"
    and a: "?argv = [resource_filename (example_env 0) ''llama_toolchain''
                       ''distribution/build_container.sh'',
                     arg_api (example_args container),
                     resolved_package_name (example_env 0) (example_args container),
                     (case dep_docker_image d of
                        Some img \<Rightarrow> if img \<noteq> [] then img else ''python:3.10-slim''
                      | None \<Rightarrow> ''python:3.10-slim''),
                     join (dep_pip_packages d)]"
    unfolding env by auto
  from m have img: "dep_docker_image d = None" by (auto simp: example_merge)
  from a have "join (dep_pip_packages d) = ''x y''" by simp
  with mem m img show ?thesis by auto
qed

text \<open>
  C9. A build script that exits with 0 is claimed to end the command with a message naming
  the package and the descriptor path. The message is an f-string over the unbound name
  \<open>target_name\<close>: the run ends in \<open>NameError\<close> and prints nothing. (A non-zero exit does
  what is claimed, see \<open>run_api_build_command_exit\<close>: the failure message names the
  package, \<open>AssertionError\<close> is raised, and the script has run once.)
\<close>

theorem build_success_raises_name_error:
  "run_with_pty (example_env 0)
     [''llama_toolchain/distribution/build_container.sh'', ''inference'',
      ''image-foo-bar-baz'', ''python:3.10-slim'', ''x y''] = 0
   \<and> raised (run_api_build_command (example_env 0) example_heap (example_args container))
       = Some (NameError ''target_name'')
   \<and> filter is_cprint
        (events (run_api_build_command (example_env 0) example_heap (example_args container))) = []"
  unfolding example_run_container by (simp add: example_env_def)

end
